theory Spec2Isabelle
  imports Main
begin

unbundle bit_operations_syntax

section \<open>Bytes, integers and the Go library functions the server calls\<close>

text \<open>
  A Go string is a sequence of bytes: \<^typ>\<open>string\<close>. The server runs on a 64-bit
  platform: \<open>int\<close>, \<open>int64\<close> and \<open>time.Duration\<close> are 64-bit two's complement
  integers, modelled as \<^typ>\<open>int\<close> with the wrap-around written out.
\<close>

definition CRLF :: string where
  "CRLF = [CHR 0x0D, CHR 0x0A]"

definition byte :: "char \<Rightarrow> nat" where
  "byte c = of_char c"

definition maxInt :: int where
  "maxInt = 9223372036854775807"

definition minInt :: int where
  "minInt = - 9223372036854775808"

text \<open>Arithmetic on a 64-bit signed integer keeps the low 64 bits.\<close>

definition wrap64 :: "int \<Rightarrow> int" where
  "wrap64 i = (i + 9223372036854775808) mod 18446744073709551616 - 9223372036854775808"

text \<open>
  The Unicode tables of the Go library are not part of the repository. The three places
  where \<open>strings.ToUpper\<close> and \<open>strings.TrimSpace\<close> leave their ASCII fast path are
  parameters of the model; every theorem holds for all of them.
\<close>

record golib =
  unicodeToUpper :: "string \<Rightarrow> string"
  unicodeTrimFunc :: "string \<Rightarrow> string"
  unicodeTrimRightFunc :: "string \<Rightarrow> string"

definition isASCII :: "string \<Rightarrow> bool" where
  "isASCII s = (\<forall>c \<in> set s. byte c < 128)"

definition upperByte :: "char \<Rightarrow> char" where
  "upperByte c = (if 97 \<le> byte c \<and> byte c \<le> 122 then char_of (byte c - 32) else c)"

text \<open>
  \<open>strings.ToUpper\<close>: a string of ASCII bytes only is mapped byte by byte, \<open>a\<close>..\<open>z\<close>
  to \<open>A\<close>..\<open>Z\<close>; any other string goes through \<open>Map(unicode.ToUpper, s)\<close>.
\<close>

definition ToUpper :: "golib \<Rightarrow> string \<Rightarrow> string" where
  "ToUpper L s = (if isASCII s then map upperByte s else unicodeToUpper L s)"

definition asciiSpace :: "char \<Rightarrow> bool" where
  "asciiSpace c = (byte c = 9 \<or> byte c = 10 \<or> byte c = 11 \<or> byte c = 12 \<or> byte c = 13 \<or> byte c = 32)"

text \<open>
  \<open>strings.TrimSpace\<close>: skip ASCII white space from the start; a byte above 127 met
  there hands the rest to \<open>TrimFunc(s[start:], unicode.IsSpace)\<close>. Then skip ASCII
  white space from the end; a byte above 127 met there hands \<open>s[start:stop]\<close> to
  \<open>TrimRightFunc\<close>.
\<close>

fun trimRight :: "golib \<Rightarrow> string \<Rightarrow> string \<Rightarrow> string" where
  "trimRight L s [] = []"
| "trimRight L s (c # r) =
     (if 128 \<le> byte c then unicodeTrimRightFunc L s
      else if asciiSpace c then trimRight L (butlast s) r
      else s)"

fun TrimSpace :: "golib \<Rightarrow> string \<Rightarrow> string" where
  "TrimSpace L [] = []"
| "TrimSpace L (c # s) =
     (if 128 \<le> byte c then unicodeTrimFunc L (c # s)
      else if asciiSpace c then TrimSpace L s
      else trimRight L (c # s) (rev (c # s)))"

datatype error =
  EOF
  | ErrUnexpectedEOF
  | NumError
  | InvalidPrefix char
  | InvalidCommand

datatype panic =
  NilFunctionCall
  | MakeSliceLenOutOfRange
  | SliceBoundsOutOfRange

datatype fault = Err error | Panic panic | OutOfFuel

definition isDigit :: "char \<Rightarrow> bool" where
  "isDigit c = (48 \<le> byte c \<and> byte c \<le> 57)"

definition digitsValue :: "string \<Rightarrow> int" where
  "digitsValue ds = foldl (\<lambda>n ch. n * 10 + (int (byte ch) - 48)) 0 ds"

text \<open>
  \<open>strconv.Atoi\<close>: an optional sign, then at least one decimal digit and nothing else;
  the value must fit a 64-bit \<open>int\<close>. The server only tests the error for \<open>nil\<close>.
\<close>

definition Atoi :: "string \<Rightarrow> error + int" where
  "Atoi s =
     (case s of
        [] \<Rightarrow> Inl NumError
      | c # r \<Rightarrow>
          (let neg = (c = CHR ''-'');
               ds = (if c = CHR ''-'' \<or> c = CHR ''+'' then r else s)
           in if ds = [] \<or> \<not> list_all isDigit ds then Inl NumError
              else if neg then
                (if digitsValue ds > 9223372036854775808 then Inl NumError
                 else Inr (- digitsValue ds))
              else
                (if digitsValue ds > maxInt then Inl NumError
                 else Inr (digitsValue ds))))"

fun digits :: "nat \<Rightarrow> string" where
  "digits n =
     (if n < 10 then [char_of (48 + n)]
      else digits (n div 10) @ [char_of (48 + n mod 10)])"

declare digits.simps [simp del]

text \<open>\<open>fmt.Sprintf("%d", i)\<close>.\<close>

definition Itoa :: "int \<Rightarrow> string" where
  "Itoa i = (if i < 0 then CHR ''-'' # digits (nat (- i)) else digits (nat i))"

section \<open>Values on the wire\<close>

text \<open>
  The decoder returns \<open>interface{}\<close> values of three dynamic types: a string, \<open>nil\<close>,
  and a slice of such values.
\<close>

datatype resp = Str string | Nil | Array "resp list"

section \<open>The buffered reader\<close>

text \<open>
  The input of a connection is the list of bytes the peer sends before it closes the
  connection. Each read returns what it read and the bytes left.
\<close>

definition ReadByte :: "string \<Rightarrow> fault + (char \<times> string)" where
  "ReadByte inp = (case inp of [] \<Rightarrow> Inl (Err EOF) | c # r \<Rightarrow> Inr (c, r))"

definition Peek1 :: "string \<Rightarrow> fault + char" where
  "Peek1 inp = (case inp of [] \<Rightarrow> Inl (Err EOF) | c # r \<Rightarrow> Inr c)"

fun ReadString :: "char \<Rightarrow> string \<Rightarrow> fault + (string \<times> string)" where
  "ReadString delim [] = Inl (Err EOF)"
| "ReadString delim (c # r) =
     (if c = delim then Inr ([c], r)
      else (case ReadString delim r of
              Inl e \<Rightarrow> Inl e
            | Inr (line, rest) \<Rightarrow> Inr (c # line, rest)))"

definition ReadFull :: "nat \<Rightarrow> string \<Rightarrow> fault + (string \<times> string)" where
  "ReadFull n inp =
     (if n \<le> length inp then Inr (take n inp, drop n inp)
      else if inp = [] then Inl (Err EOF)
      else Inl (Err ErrUnexpectedEOF))"

section \<open>The decoder\<close>

text \<open>
  \<open>readRESP\<close> calls itself for every element of an array. The recursion is bounded by
  a fuel that one call of \<open>readRESP\<close> spends; \<open>readArray\<close> is the loop
  \<open>for i := 0; i < count; i++\<close>. \<open>make\<close> panics on a negative length, and so does
  the slice expression \<open>buf[:size]\<close> on a negative bound; \<open>size + 2\<close> is computed
  in an \<open>int\<close> and wraps around. Memory is not bounded here: \<open>make\<close> with a length
  that is not negative succeeds.
\<close>

fun readRESP_fuel :: "nat \<Rightarrow> golib \<Rightarrow> string \<Rightarrow> fault + (resp \<times> string)"
  and readArray :: "nat \<Rightarrow> golib \<Rightarrow> nat \<Rightarrow> string \<Rightarrow> fault + (resp list \<times> string)"
where
  "readRESP_fuel 0 L inp = Inl OutOfFuel"
| "readRESP_fuel (Suc f) L inp =
     (case ReadByte inp of
        Inl e \<Rightarrow> Inl e
      | Inr (prefix, r1) \<Rightarrow>
          if prefix = CHR ''+'' \<or> prefix = CHR ''-'' \<or> prefix = CHR '':'' then
            (case ReadString (CHR 0x0A) r1 of
               Inl e \<Rightarrow> Inl e
             | Inr (line, r2) \<Rightarrow> Inr (Str (TrimSpace L line), r2))
          else if prefix = CHR ''$'' then
            (case ReadString (CHR 0x0A) r1 of
               Inl e \<Rightarrow> Inl e
             | Inr (line, r2) \<Rightarrow>
                 (case Atoi (TrimSpace L line) of
                    Inl e \<Rightarrow> Inl (Err e)
                  | Inr bulkSize \<Rightarrow>
                      if bulkSize = - 1 then Inr (Nil, r2)
                      else if wrap64 (bulkSize + 2) < 0 then Inl (Panic MakeSliceLenOutOfRange)
                      else
                        (case ReadFull (nat (wrap64 (bulkSize + 2))) r2 of
                           Inl e \<Rightarrow> Inl e
                         | Inr (buf, r3) \<Rightarrow>
                             if bulkSize < 0 then Inl (Panic SliceBoundsOutOfRange)
                             else Inr (Str (take (nat bulkSize) buf), r3))))
          else if prefix = CHR ''*'' then
            (case ReadString (CHR 0x0A) r1 of
               Inl e \<Rightarrow> Inl e
             | Inr (line, r2) \<Rightarrow>
                 (case Atoi (TrimSpace L line) of
                    Inl e \<Rightarrow> Inl (Err e)
                  | Inr count \<Rightarrow>
                      if count < 0 then Inl (Panic MakeSliceLenOutOfRange)
                      else
                        (case readArray f L (nat count) r2 of
                           Inl e \<Rightarrow> Inl e
                         | Inr (array, r3) \<Rightarrow> Inr (Array array, r3))))
          else Inl (Err (InvalidPrefix prefix)))"
| "readArray f L 0 inp = Inr ([], inp)"
| "readArray f L (Suc n) inp =
     (case readRESP_fuel f L inp of
        Inl e \<Rightarrow> Inl e
      | Inr (elem, r) \<Rightarrow>
          (case readArray f L n r of
             Inl e \<Rightarrow> Inl e
           | Inr (elems, r') \<Rightarrow> Inr (elem # elems, r')))"

text \<open>Every call reads at least the prefix byte, so the length of the input is fuel enough.\<close>

definition readRESP :: "golib \<Rightarrow> string \<Rightarrow> fault + (resp \<times> string)" where
  "readRESP L inp = readRESP_fuel (Suc (length inp)) L inp"

definition readCommand :: "golib \<Rightarrow> string \<Rightarrow> fault + ((string \<times> resp list) \<times> string)" where
  "readCommand L inp =
     (case Peek1 inp of
        Inl e \<Rightarrow> Inl e
      | Inr prefix \<Rightarrow>
          if prefix \<noteq> CHR ''*'' then
            (case ReadString (CHR 0x0A) inp of
               Inl e \<Rightarrow> Inl e
             | Inr (line, r) \<Rightarrow> Inr ((ToUpper L (TrimSpace L line), []), r))
          else
            (case readRESP L inp of
               Inl e \<Rightarrow> Inl e
             | Inr (resp, r) \<Rightarrow>
                 (case resp of
                    Array respArray \<Rightarrow>
                      (case respArray of
                         [] \<Rightarrow> Inr (('''', []), r)
                       | first # rest \<Rightarrow>
                           (case first of
                              Str cmd \<Rightarrow> Inr ((ToUpper L cmd, rest), r)
                            | _ \<Rightarrow> Inl (Err InvalidCommand)))
                  | _ \<Rightarrow> Inr (('''', []), r))))"

section \<open>The reply encoder\<close>

definition addReplyErrorArity :: string where
  "addReplyErrorArity = ''-ERR wrong number of arguments'' @ CRLF"

text \<open>
  \<open>addReplyBulk\<close>: the loop over \<open>args\<close> appends to the buffer \<open>reply\<close>; the branch of
  a nested slice and the default branch return from the function inside the loop. Of the
  values the decoder produces only \<open>nil\<close> reaches the default branch, and \<open>%T\<close> prints
  it as \<open><nil>\<close>.
\<close>

fun addReplyBulk :: "resp list \<Rightarrow> string"
  and addReplyBulk_loop :: "resp list \<Rightarrow> string \<Rightarrow> string"
where
  "addReplyBulk args = (if length args = 0 then ''+'' @ CRLF else addReplyBulk_loop args [])"
| "addReplyBulk_loop [] reply = reply"
| "addReplyBulk_loop (Str v # rest) reply =
     addReplyBulk_loop rest
       ((reply @ ''$'' @ Itoa (int (length v)) @ CRLF) @ v @ CRLF)"
| "addReplyBulk_loop (Array v # rest) reply = addReplyBulk v"
| "addReplyBulk_loop (Nil # rest) reply = ''-ERR Unknown argument type <nil>'' @ CRLF"

section \<open>The command table\<close>

datatype handler = PingCommand | EchoCommand | SetCommand | GetCommand

record Argument =
  ArgName :: string
  ArgType :: string
  ArgOptional :: bool

text \<open>The field \<open>Group\<close> of \<open>CommandInfo\<close> is \<open>InfoGroup\<close> here.\<close>

record CommandInfo =
  Summary :: string
  Complexity :: string
  InfoGroup :: string
  Since :: string
  Arity :: int
  FunctionName :: string
  CommandFlags :: "string list"
  AclCategories :: "string list"
  CommandTips :: "string list"
  Arguments :: "Argument list"

text \<open>The field \<open>Function\<close> is \<open>None\<close> for Go's \<open>nil\<close>.\<close>

record RedisCommand =
  Name :: string
  Function :: "handler option"
  Group :: string
  MinArgs :: int
  CmdFlags :: int
  Category :: string

type_synonym commandTable = "string \<rightharpoonup> RedisCommand"

definition CMD_FAST :: int where
  "CMD_FAST = push_bit 0 1"

definition CMD_SENTINEL :: int where
  "CMD_SENTINEL = push_bit 1 1"

definition getFunctionByName :: "string \<Rightarrow> handler option" where
  "getFunctionByName name =
     (if name = ''pingCommand'' then Some PingCommand
      else if name = ''echoCommand'' then Some EchoCommand
      else if name = ''handleSetCommand'' then Some SetCommand
      else if name = ''handleGetCommand'' then Some GetCommand
      else None)"

fun Join :: "string list \<Rightarrow> string \<Rightarrow> string" where
  "Join [] sep = []"
| "Join [x] sep = x"
| "Join (x # y # ys) sep = x @ sep @ Join (y # ys) sep"

text \<open>
  \<open>filepath.Ext\<close>: the suffix that starts at the last dot of the last element of the
  path, empty when that element has no dot.
\<close>

definition Ext :: "string \<Rightarrow> string" where
  "Ext path =
     (let elem = rev (takeWhile (\<lambda>c. c \<noteq> CHR ''/'') (rev path))
      in if CHR ''.'' \<in> set elem
         then CHR ''.'' # rev (takeWhile (\<lambda>c. c \<noteq> CHR ''.'') (rev elem))
         else [])"

definition addFlag :: "int \<Rightarrow> string \<Rightarrow> int" where
  "addFlag cmdFlags flag =
     (if flag = ''FAST'' then cmdFlags OR CMD_FAST
      else if flag = ''SENTINEL'' then cmdFlags OR CMD_SENTINEL
      else cmdFlags)"

definition makeCommand :: "string \<Rightarrow> CommandInfo \<Rightarrow> RedisCommand" where
  "makeCommand cmdName info =
     \<lparr>Name = cmdName,
      Function = getFunctionByName (FunctionName info),
      Group = InfoGroup info,
      MinArgs = Arity info,
      CmdFlags = foldl addFlag 0 (CommandFlags info),
      Category = Join (AclCategories info) '',''\<rparr>"

text \<open>
  What the loader reads: the directory listing, or the failure of \<open>ReadDir\<close>; for each
  file its name and either the failure of \<open>ReadFile\<close>, the failure of
  \<open>json.Unmarshal\<close>, or the entries of the decoded map in the order the \<open>range\<close> loop
  visits them.
\<close>

datatype fileContent =
  ReadFileError
  | UnmarshalError
  | Commands "(string \<times> CommandInfo) list"

datatype directory = ReadDirError | Files "(string \<times> fileContent) list"

fun addCommands :: "commandTable \<Rightarrow> (string \<times> CommandInfo) list \<Rightarrow> commandTable" where
  "addCommands commandTable [] = commandTable"
| "addCommands commandTable ((cmdName, info) # commands) =
     addCommands (commandTable(cmdName \<mapsto> makeCommand cmdName info)) commands"

fun loadFiles :: "commandTable \<Rightarrow> (string \<times> fileContent) list \<Rightarrow> commandTable" where
  "loadFiles commandTable [] = commandTable"
| "loadFiles commandTable ((fileName, content) # files) =
     (if Ext fileName = ''.json'' then
        (case content of
           ReadFileError \<Rightarrow> loadFiles commandTable files
         | UnmarshalError \<Rightarrow> loadFiles commandTable files
         | Commands commands \<Rightarrow> loadFiles (addCommands commandTable commands) files)
      else loadFiles commandTable files)"

text \<open>\<open>Inl 1\<close> is \<open>os.Exit(1)\<close>.\<close>

definition loadCommandsFromJSON :: "directory \<Rightarrow> int + commandTable" where
  "loadCommandsFromJSON dir =
     (case dir of
        ReadDirError \<Rightarrow> Inl 1
      | Files files \<Rightarrow> Inr (loadFiles Map.empty files))"

text \<open>Indexing a Go map with a missing key gives the zero value of \<open>RedisCommand\<close>.\<close>

definition zeroCommand :: RedisCommand where
  "zeroCommand =
     \<lparr>Name = [], Function = None, Group = [], MinArgs = 0, CmdFlags = 0, Category = []\<rparr>"

definition index :: "commandTable \<Rightarrow> string \<Rightarrow> RedisCommand" where
  "index T cmd = (case T cmd of None \<Rightarrow> zeroCommand | Some command \<Rightarrow> command)"

definition addReply :: "RedisCommand \<Rightarrow> string" where
  "addReply command =
     (if Name command = ''PING'' then ''+PONG'' @ CRLF
      else ''-ERR Unknown command '' @ Name command @ CRLF)"

section \<open>The store and the command handlers\<close>

text \<open>
  An instant is a number of nanoseconds, without the bounds of \<open>time.Time\<close>;
  \<open>time.Now()\<close> is the argument \<open>now\<close> of a handler. \<open>Time.Add\<close> adds a
  duration, \<open>Time.After\<close> is the strict order. A duration is an \<open>int64\<close> number of
  nanoseconds, so the product \<open>time.Duration(expiryInt) * time.Millisecond\<close> keeps
  its low 64 bits. A handler is a function from the store to the store and the reply:
  one call, run to completion.
\<close>

type_synonym time = int

record RedisServer =
  Storage :: "string \<rightharpoonup> string"
  Expirations :: "string \<rightharpoonup> time"

definition Millisecond :: int where
  "Millisecond = 1000000"

definition Add :: "time \<Rightarrow> int \<Rightarrow> time" where
  "Add t d = t + d"

definition After :: "time \<Rightarrow> time \<Rightarrow> bool" where
  "After t u = (u < t)"

definition handlePingCommand :: "commandTable \<Rightarrow> string \<Rightarrow> resp list \<Rightarrow> string" where
  "handlePingCommand T cmd args =
     (if length args > 1 then addReplyErrorArity
      else if length args = 0 then addReply (index T cmd)
      else addReplyBulk args)"

definition handleEchoCommand :: "string \<Rightarrow> resp list \<Rightarrow> string" where
  "handleEchoCommand cmd args =
     (if length args \<noteq> 1 then addReplyErrorArity
      else (case args ! 0 of
              Str arg \<Rightarrow> addReplyBulk [Str arg]
            | _ \<Rightarrow> ''-ERR Invalid argument type'' @ CRLF))"

definition handleSetCommand ::
  "golib \<Rightarrow> time \<Rightarrow> RedisServer \<Rightarrow> string \<Rightarrow> resp list \<Rightarrow> RedisServer \<times> string" where
  "handleSetCommand L now server cmd args =
     (if length args \<noteq> 2 \<and> length args \<noteq> 4 then (server, addReplyErrorArity)
      else
        (case args ! 0 of
           Str key \<Rightarrow>
             (case args ! 1 of
                Str val \<Rightarrow>
                  if length args = 4 then
                    (case args ! 2 of
                       Str expiryOption \<Rightarrow>
                         if ToUpper L expiryOption \<noteq> ''PX''
                         then (server, ''-ERR Invalid expiry option'' @ CRLF)
                         else
                           (case args ! 3 of
                              Str expiry \<Rightarrow>
                                (case Atoi expiry of
                                   Inl e \<Rightarrow> (server, ''-ERR Invalid expiry value'' @ CRLF)
                                 | Inr expiryInt \<Rightarrow>
                                     (server
                                        \<lparr>Storage := (Storage server)(key \<mapsto> val),
                                         Expirations := (Expirations server)
                                           (key \<mapsto> Add now (wrap64 (expiryInt * Millisecond)))\<rparr>,
                                      ''+OK'' @ CRLF))
                            | _ \<Rightarrow> (server, ''-ERR Invalid expiry type'' @ CRLF))
                     | _ \<Rightarrow> (server, ''-ERR Invalid expiry option'' @ CRLF))
                  else
                    (server
                       \<lparr>Storage := (Storage server)(key \<mapsto> val),
                        Expirations := (Expirations server)(key := None)\<rparr>,
                     ''+OK'' @ CRLF)
              | _ \<Rightarrow> (server, ''-ERR Invalid value type'' @ CRLF))
         | _ \<Rightarrow> (server, ''-ERR Invalid key type'' @ CRLF)))"

definition expired :: "time \<Rightarrow> RedisServer \<Rightarrow> string \<Rightarrow> bool" where
  "expired now server key =
     (case Expirations server key of
        None \<Rightarrow> False
      | Some expiration \<Rightarrow> After now expiration)"

definition handleGetCommand ::
  "time \<Rightarrow> RedisServer \<Rightarrow> string \<Rightarrow> resp list \<Rightarrow> RedisServer \<times> string" where
  "handleGetCommand now server cmd args =
     (if length args \<noteq> 1 then (server, addReplyErrorArity)
      else
        (case args ! 0 of
           Str key \<Rightarrow>
             if expired now server key then
               (server
                  \<lparr>Storage := (Storage server)(key := None),
                   Expirations := (Expirations server)(key := None)\<rparr>,
                ''$-1'' @ CRLF)
             else
               (case Storage server key of
                  None \<Rightarrow> (server, ''$-1'' @ CRLF)
                | Some val \<Rightarrow> (server, addReplyBulk [Str val]))
         | _ \<Rightarrow> (server, ''-ERR Invalid key type'' @ CRLF)))"

section \<open>Dispatch\<close>

text \<open>
  One turn of the loop of \<open>handleCommands\<close>: look the command up and call the function
  of its record. Calling a \<open>nil\<close> function value panics, and no function of the server
  recovers from a panic.
\<close>

definition callHandler ::
  "handler \<Rightarrow> commandTable \<Rightarrow> golib \<Rightarrow> time \<Rightarrow> RedisServer \<Rightarrow> string \<Rightarrow> resp list
     \<Rightarrow> RedisServer \<times> string" where
  "callHandler h T L now server cmd args =
     (case h of
        PingCommand \<Rightarrow> (server, handlePingCommand T cmd args)
      | EchoCommand \<Rightarrow> (server, handleEchoCommand cmd args)
      | SetCommand \<Rightarrow> handleSetCommand L now server cmd args
      | GetCommand \<Rightarrow> handleGetCommand now server cmd args)"

definition handleCommands ::
  "commandTable \<Rightarrow> golib \<Rightarrow> time \<Rightarrow> RedisServer \<Rightarrow> string \<Rightarrow> resp list
     \<Rightarrow> fault + (RedisServer \<times> string)" where
  "handleCommands T L now server cmd args =
     (case T cmd of
        Some command \<Rightarrow>
          (case Function command of
             None \<Rightarrow> Inl (Panic NilFunctionCall)
           | Some h \<Rightarrow> Inr (callHandler h T L now server cmd args))
      | None \<Rightarrow> Inr (server, ''-ERR Unknown command: '' @ cmd @ CRLF))"

text \<open>
  \<open>main\<close> starts the server with two empty maps. \<open>run\<close> executes a list of
  requests one whole handler after the other, each with the instant at which its handler
  reads the clock: the runs of a server with one connection, or with handlers that do
  not overlap.
\<close>

definition newServer :: RedisServer where
  "newServer = \<lparr>Storage = Map.empty, Expirations = Map.empty\<rparr>"


section \<open>Handlers of several connections\<close>

text \<open>
  \<open>main\<close> starts \<open>handleConnection\<close> in a goroutine for every connection, and
  each starts its own \<open>handleCommands\<close> on the one \<open>RedisServer\<close>; no lock guards
  the maps. A handler changes the maps by separate statements: SET by
  \<open>server.Storage[key] = value\<close> and then the assignment or the \<open>delete\<close> on
  \<open>server.Expirations\<close>; GET by the test of the expiration and then, when it has
  passed, \<open>delete(server.Storage, key)\<close> and \<open>delete(server.Expirations, key)\<close>.
  \<open>setSteps\<close> and \<open>getSteps\<close> are the steps of one call, after the same
  validation as in the handler; \<open>schedule\<close> lets the threads take their next step in
  a given order.
\<close>

datatype stmt =
  SetStorage string string
  | SetExpiration string time
  | DeleteStorage string
  | DeleteExpiration string

fun exec :: "stmt \<Rightarrow> RedisServer \<Rightarrow> RedisServer" where
  "exec (SetStorage key val) server = server\<lparr>Storage := (Storage server)(key \<mapsto> val)\<rparr>"
| "exec (SetExpiration key t) server = server\<lparr>Expirations := (Expirations server)(key \<mapsto> t)\<rparr>"
| "exec (DeleteStorage key) server = server\<lparr>Storage := (Storage server)(key := None)\<rparr>"
| "exec (DeleteExpiration key) server = server\<lparr>Expirations := (Expirations server)(key := None)\<rparr>"

datatype step = Write stmt | CheckExpired time string

definition setSteps :: "golib \<Rightarrow> time \<Rightarrow> resp list \<Rightarrow> step list" where
  "setSteps L now args =
     (if length args \<noteq> 2 \<and> length args \<noteq> 4 then []
      else
        (case args ! 0 of
           Str key \<Rightarrow>
             (case args ! 1 of
                Str val \<Rightarrow>
                  if length args = 4 then
                    (case args ! 2 of
                       Str expiryOption \<Rightarrow>
                         if ToUpper L expiryOption \<noteq> ''PX'' then []
                         else
                           (case args ! 3 of
                              Str expiry \<Rightarrow>
                                (case Atoi expiry of
                                   Inl e \<Rightarrow> []
                                 | Inr expiryInt \<Rightarrow>
                                     [Write (SetStorage key val),
                                      Write (SetExpiration key
                                        (Add now (wrap64 (expiryInt * Millisecond))))])
                            | _ \<Rightarrow> [])
                     | _ \<Rightarrow> [])
                  else [Write (SetStorage key val), Write (DeleteExpiration key)]
              | _ \<Rightarrow> [])
         | _ \<Rightarrow> []))"

definition getSteps :: "time \<Rightarrow> resp list \<Rightarrow> step list" where
  "getSteps now args =
     (if length args \<noteq> 1 then []
      else (case args ! 0 of Str key \<Rightarrow> [CheckExpired now key] | _ \<Rightarrow> []))"

fun stepThread :: "RedisServer \<Rightarrow> step list \<Rightarrow> RedisServer \<times> step list" where
  "stepThread server [] = (server, [])"
| "stepThread server (Write s # rest) = (exec s server, rest)"
| "stepThread server (CheckExpired now key # rest) =
     (server,
      if expired now server key
      then Write (DeleteStorage key) # Write (DeleteExpiration key) # rest
      else rest)"

fun schedule :: "RedisServer \<Rightarrow> step list list \<Rightarrow> nat list \<Rightarrow> RedisServer" where
  "schedule server threads [] = server"
| "schedule server threads (i # order) =
     (if i < length threads
      then schedule (fst (stepThread server (threads ! i)))
             (threads[i := snd (stepThread server (threads ! i))]) order
      else schedule server threads order)"

section \<open>The notions of the specification\<close>

text \<open>
  The wire format of the specification, section 6: a bulk string is
  \<open>$<len>\r\n<bytes>\r\n\<close>, a request frame is \<open>*<n>\r\n\<close> followed by \<open>n\<close> bulk
  strings, and an error reply is a line that starts with \<open>-\<close>. The server has no
  function that writes a request frame; \<open>spec_encodeFrame\<close> follows the specification.
\<close>

definition spec_bulkString :: "string \<Rightarrow> string" where
  "spec_bulkString s = ''$'' @ Itoa (int (length s)) @ CRLF @ s @ CRLF"

definition spec_encodeFrame :: "string list \<Rightarrow> string" where
  "spec_encodeFrame xs =
     ''*'' @ Itoa (int (length xs)) @ CRLF @ concat (map spec_bulkString xs)"

definition spec_isErrorReply :: "string \<Rightarrow> bool" where
  "spec_isErrorReply reply = (case reply of [] \<Rightarrow> False | c # r \<Rightarrow> c = CHR ''-'')"


text \<open>
  The reply encoding of the specification, section 4.5, for a value: a string as a bulk
  string, a null value as \<open>$-1\r\n\<close>, a list as the concatenation of the encodings
  of its elements in order.
\<close>

fun spec_bulk :: "resp \<Rightarrow> string" where
  "spec_bulk (Str s) = spec_bulkString s"
| "spec_bulk Nil = ''$-1'' @ CRLF"
| "spec_bulk (Array vs) = concat (map spec_bulk vs)"

text \<open>Every record of a command table is filed under its own name.\<close>

definition named :: "commandTable \<Rightarrow> bool" where
  "named T = (\<forall>k c. T k = Some c \<longrightarrow> Name c = k)"

section \<open>Values for the examples\<close>

text \<open>
  The examples below use ASCII strings only, for which the library never leaves its fast
  paths; they run with this instance of the parameters.
\<close>

definition exampleLib :: golib where
  "exampleLib = \<lparr>unicodeToUpper = id, unicodeTrimFunc = id, unicodeTrimRightFunc = id\<rparr>"

text \<open>
  A descriptor for the examples: \<open>json.Unmarshal\<close> leaves every field that the file
  does not mention at its zero value; only the function token is given.
\<close>

definition exampleInfo :: "string \<Rightarrow> CommandInfo" where
  "exampleInfo functionName =
     \<lparr>Summary = [], Complexity = [], InfoGroup = [], Since = [], Arity = 0,
      FunctionName = functionName, CommandFlags = [], AclCategories = [],
      CommandTips = [], Arguments = []\<rparr>"

section \<open>Decimal numbers and lines\<close>

lemma byte_char_of: "n < 256 \<Longrightarrow> byte (char_of n) = n"
  by (simp add: byte_def)

lemma isDigit_char_of: "d < (10::nat) \<Longrightarrow> isDigit (char_of (48 + d))"
  by (simp add: isDigit_def byte_char_of)

lemma digits_all: "list_all isDigit (digits n)"
proof (induction n rule: digits.induct)
  case (1 n)
  show ?case
  proof (cases "n < 10")
    case True
    then show ?thesis by (subst digits.simps) (simp add: isDigit_char_of)
  next
    case False
    with 1 show ?thesis by (subst digits.simps) (simp add: isDigit_char_of)
  qed
qed

lemma digits_nonempty: "digits n \<noteq> []"
  by (subst digits.simps) simp

lemma digitsValue_snoc: "digitsValue (ds @ [c]) = digitsValue ds * 10 + (int (byte c) - 48)"
  by (simp add: digitsValue_def)

lemma digitsValue_digits: "digitsValue (digits n) = int n"
proof (induction n rule: digits.induct)
  case (1 n)
  show ?case
  proof (cases "n < 10")
    case True
    then show ?thesis by (subst digits.simps) (simp add: digitsValue_def byte_char_of)
  next
    case False
    then have "digitsValue (digits n) = int (n div 10) * 10 + int (n mod 10)"
      using 1 by (subst digits.simps) (simp add: digitsValue_snoc byte_char_of)
    then show ?thesis by (simp add: zdiv_int zmod_int)
  qed
qed

lemma isDigit_not_sign: "isDigit c \<Longrightarrow> c \<noteq> CHR ''-'' \<and> c \<noteq> CHR ''+'' \<and> c \<noteq> CHR 0x0A \<and> \<not> asciiSpace c \<and> byte c < 128"
  by (auto simp: isDigit_def asciiSpace_def byte_def)

lemma Atoi_digits: "int n \<le> maxInt \<Longrightarrow> Atoi (digits n) = Inr (int n)"
proof -
  assume le: "int n \<le> maxInt"
  obtain c r where cr: "digits n = c # r"
    using digits_nonempty [of n] by (cases "digits n") auto
  have "isDigit c" using digits_all [of n] cr by simp
  then have "c \<noteq> CHR ''-''" "c \<noteq> CHR ''+''" using isDigit_not_sign by blast+
  then show ?thesis
    using le cr digits_all [of n] digitsValue_digits [of n]
    by (simp add: Atoi_def)
qed

lemma trimRight_spaces:
  "\<not> asciiSpace c \<Longrightarrow> byte c < 128 \<Longrightarrow> list_all asciiSpace ws \<Longrightarrow> list_all (\<lambda>c. byte c < 128) ws \<Longrightarrow>
   trimRight L (a @ [c] @ ws) (rev (a @ [c] @ ws)) = a @ [c]"
proof (induction ws rule: rev_induct)
  case Nil
  then show ?case by simp
next
  case (snoc w ws)
  then show ?case by (simp add: butlast_append)
qed

lemma TrimSpace_line:
  assumes "list_all isDigit ds" "ds \<noteq> []"
  shows "TrimSpace L (ds @ CRLF) = ds"
proof -
  obtain c r where cr: "ds = c # r" using assms by (cases ds) auto
  obtain a z where az: "ds = a @ [z]" using assms by (metis rev_exhaust)
  have c: "\<not> asciiSpace c" "byte c < 128" using assms cr isDigit_not_sign by auto
  have z: "\<not> asciiSpace z" "byte z < 128" using assms az isDigit_not_sign by auto
  have "TrimSpace L (ds @ CRLF) = trimRight L (ds @ CRLF) (rev (ds @ CRLF))"
    using c cr by simp
  also have "\<dots> = trimRight L (a @ [z] @ CRLF) (rev (a @ [z] @ CRLF))"
    using az by simp
  also have "\<dots> = a @ [z]"
    by (rule trimRight_spaces) (use z in \<open>simp_all add: CRLF_def asciiSpace_def byte_def\<close>)
  finally show ?thesis using az by simp
qed

lemma ReadString_line:
  "CHR 0x0A \<notin> set a \<Longrightarrow> ReadString (CHR 0x0A) (a @ CRLF @ rest) = Inr (a @ CRLF, rest)"
  by (induction a) (auto simp: CRLF_def)

lemma digits_no_LF: "CHR 0x0A \<notin> set (digits n)"
  using digits_all [of n] isDigit_not_sign by (auto simp: list_all_iff)


lemma Itoa_nat: "Itoa (int n) = digits n"
  by (simp add: Itoa_def)

lemma ReadString_length_line:
  "ReadString (CHR 0x0A) (Itoa (int n) @ CRLF @ rest) = Inr (Itoa (int n) @ CRLF, rest)"
  by (simp add: Itoa_nat ReadString_line digits_no_LF)

lemma Atoi_length_line:
  "int n \<le> maxInt \<Longrightarrow> Atoi (TrimSpace L (Itoa (int n) @ CRLF)) = Inr (int n)"
  by (simp add: Itoa_nat TrimSpace_line digits_all digits_nonempty Atoi_digits)

lemma wrap64_id: "minInt \<le> i \<Longrightarrow> i \<le> maxInt \<Longrightarrow> wrap64 i = i"
  by (simp add: wrap64_def minInt_def maxInt_def)

lemma readRESP_fuel_bulkString:
  assumes "int (length s) + 2 \<le> maxInt"
  shows "readRESP_fuel (Suc f) L (spec_bulkString s @ rest) = Inr (Str s, rest)"
proof -
  have n: "int (length s) \<le> maxInt" using assms by simp
  have w: "wrap64 (int (length s) + 2) = int (length s) + 2"
    using assms by (simp add: wrap64_id minInt_def)
  have full: "ReadFull (nat (int (length s) + 2)) (s @ CRLF @ rest) = Inr (s @ CRLF, rest)"
    by (simp add: ReadFull_def CRLF_def nat_add_distrib)
  show ?thesis
    using ReadString_length_line [of "length s" "s @ CRLF @ rest"]
      Atoi_length_line [OF n, of L] w full
    by (simp add: spec_bulkString_def ReadByte_def)
qed

lemma readArray_bulkStrings:
  assumes "\<forall>s \<in> set xs. int (length s) + 2 \<le> maxInt"
  shows "readArray (Suc f) L (length xs) (concat (map spec_bulkString xs) @ rest) = Inr (map Str xs, rest)"
  using assms
  by (induction xs) (simp_all add: readRESP_fuel_bulkString del: readRESP_fuel.simps)

lemma readRESP_fuel_frame:
  assumes "\<forall>s \<in> set xs. int (length s) + 2 \<le> maxInt" and "int (length xs) \<le> maxInt"
  shows "readRESP_fuel (Suc (Suc f)) L (spec_encodeFrame xs @ rest) = Inr (Array (map Str xs), rest)"
  using ReadString_length_line [of "length xs" "concat (map spec_bulkString xs) @ rest"]
    Atoi_length_line [OF assms(2), of L]
    readArray_bulkStrings [OF assms(1), of f L rest]
  by (simp add: spec_encodeFrame_def ReadByte_def del: readArray.simps)

lemma readRESP_frame:
  assumes "\<forall>s \<in> set xs. int (length s) + 2 \<le> maxInt" and "int (length xs) \<le> maxInt"
  shows "readRESP L (spec_encodeFrame xs @ rest) = Inr (Array (map Str xs), rest)"
proof -
  have "length (spec_encodeFrame xs @ rest) \<noteq> 0"
    by (simp add: spec_encodeFrame_def)
  then obtain f where "length (spec_encodeFrame xs @ rest) = Suc f"
    by (cases "length (spec_encodeFrame xs @ rest)") auto
  then show ?thesis
    using readRESP_fuel_frame [OF assms, of f L rest] by (simp add: readRESP_def)
qed

section \<open>Decoding a request frame\<close>

text \<open>
  Claim C3. For every non-empty list of strings, decoding its array-of-bulk-strings
  frame with \<open>readCommand\<close> gives the first string upper-cased as the command name and
  the other strings, unchanged and in order, as the arguments; the bytes after the frame
  are left in the reader. The lengths are those a Go string and a Go slice can have on
  the 64-bit platform: the decoder computes \<open>size + 2\<close> in an \<open>int\<close>.
\<close>

theorem C3_roundtrip:
  assumes "\<forall>s \<in> set (x # xs). int (length s) + 2 \<le> maxInt"
    and "int (length (x # xs)) \<le> maxInt"
  shows "readCommand L (spec_encodeFrame (x # xs) @ rest) = Inr ((ToUpper L x, map Str xs), rest)"
proof -
  have "Peek1 (spec_encodeFrame (x # xs) @ rest) = Inr (CHR ''*'')"
    by (simp add: spec_encodeFrame_def Peek1_def)
  then show ?thesis
    using readRESP_frame [OF assms, of L rest] by (simp add: readCommand_def)
qed

theorem C3_roundtrip_witness:
  "int (length ''set'') + 2 \<le> maxInt \<and> int (length ''foo'') + 2 \<le> maxInt
   \<and> int (length ''bar'') + 2 \<le> maxInt
   \<and> int (length [''set'', ''foo'', ''bar'']) \<le> maxInt
   \<and> readCommand exampleLib (spec_encodeFrame [''set'', ''foo'', ''bar''] @ ''PING'')
       = Inr ((''SET'', [Str ''foo'', Str ''bar'']), ''PING'')"
proof -
  have h1: "\<forall>s \<in> set [''set'', ''foo'', ''bar'']. int (length s) + 2 \<le> maxInt"
    by (simp add: maxInt_def)
  have h2: "int (length [''set'', ''foo'', ''bar'']) \<le> maxInt"
    by (simp add: maxInt_def)
  have up: "ToUpper exampleLib ''set'' = ''SET''"
    by code_simp
  show ?thesis
    using h1 h2 C3_roundtrip [OF h1 h2, of exampleLib "''PING''"] up by simp
qed

section \<open>SET\<close>

lemma wrap64_Millisecond:
  "- 9223372036854 \<le> n \<Longrightarrow> n \<le> 9223372036854 \<Longrightarrow> wrap64 (n * Millisecond) = n * 1000000"
  by (simp add: wrap64_id minInt_def maxInt_def Millisecond_def)

text \<open>
  On ASCII strings the test \<open>strings.ToUpper(expiryOption) != "PX"\<close> accepts exactly
  the four spellings of \<open>PX\<close>.
\<close>

lemma byte_inj: "byte c = byte d \<Longrightarrow> c = d"
  by (simp add: byte_def)

lemma char_of_byte: "char_of (byte c) = c"
  by (simp add: byte_def)

lemma byte_lt: "byte c < 256"
  by (simp add: byte_def)

lemma upperByte_eq_iff:
  assumes "65 \<le> (n::nat)" "n \<le> 90"
  shows "(upperByte c = char_of n) = (c = char_of n \<or> c = char_of (n + 32))"
proof (cases "97 \<le> byte c \<and> byte c \<le> 122")
  case True
  then have u: "upperByte c = char_of (byte c - 32)" by (simp add: upperByte_def)
  have "(char_of (byte c - 32) = (char_of n :: char)) = (byte c - 32 = n)"
    using True assms byte_char_of [of "byte c - 32"] byte_char_of [of n] by auto
  moreover have "(byte c - 32 = n) = (c = char_of (n + 32))"
    using True assms byte_char_of [of "n + 32"] char_of_byte [of c] by auto
  moreover have "c \<noteq> char_of n"
    using True assms byte_char_of [of n] by auto
  ultimately show ?thesis using u by simp
next
  case False
  then have u: "upperByte c = c" by (auto simp: upperByte_def)
  have "c \<noteq> char_of (n + 32)"
    using False assms byte_char_of [of "n + 32"] by auto
  then show ?thesis using u by simp
qed

lemma letters: "CHR ''P'' = char_of (80::nat)" "CHR ''p'' = char_of (80 + 32 :: nat)"
  "CHR ''X'' = char_of (88::nat)" "CHR ''x'' = char_of (88 + 32 :: nat)"
  by code_simp+

lemma upperByte_P: "(upperByte c = CHR ''P'') = (c = CHR ''P'' \<or> c = CHR ''p'')"
  unfolding letters by (rule upperByte_eq_iff) simp_all

lemma upperByte_X: "(upperByte c = CHR ''X'') = (c = CHR ''X'' \<or> c = CHR ''x'')"
  unfolding letters by (rule upperByte_eq_iff) simp_all

lemma ToUpper_PX:
  "isASCII opt \<Longrightarrow>
   (ToUpper L opt = ''PX'') = (opt = ''PX'' \<or> opt = ''Px'' \<or> opt = ''pX'' \<or> opt = ''px'')"
proof -
  assume a: "isASCII opt"
  have "(map upperByte opt = ''PX'') = (opt = ''PX'' \<or> opt = ''Px'' \<or> opt = ''pX'' \<or> opt = ''px'')"
  proof (cases opt)
    case Nil
    then show ?thesis by simp
  next
    case (Cons c r)
    show ?thesis
    proof (cases r)
      case Nil
      then show ?thesis using Cons by simp
    next
      case (Cons d r')
      show ?thesis
        unfolding \<open>opt = c # r\<close> Cons
        using upperByte_P [of c] upperByte_X [of d] by (cases r') auto
    qed
  qed
  then show ?thesis using a by (simp add: ToUpper_def)
qed

text \<open>
  Claim C1, as amended. For every SET invocation with string arguments: with the two
  arguments key and value it stores the value under the key, deletes the expiration
  recorded for the key and replies \<open>+OK\<close>. With four arguments, a third argument whose
  upper-casing is not \<open>PX\<close> (it does not equal \<open>PX\<close> up to case) gives the
  option-error reply, and a fourth argument that
  \<open>Atoi\<close> rejects gives the value-error reply; when \<open>Atoi\<close> returns \<open>N\<close> and
  \<open>N\<close> milliseconds fit the 64-bit nanosecond count of a duration
  (\<open>|N| \<le> 9223372036854\<close>) it stores the value, records the expiration
  \<open>now + N\<close> milliseconds and replies \<open>+OK\<close>. Any other number of arguments gives
  the arity-error reply. The errors leave the store as it was.
\<close>

theorem C1_set:
  "handleSetCommand L now server cmd [Str key, Str val]
     = (server\<lparr>Storage := (Storage server)(key \<mapsto> val),
               Expirations := (Expirations server)(key := None)\<rparr>, ''+OK'' @ CRLF)
   \<and> (ToUpper L opt \<noteq> ''PX'' \<longrightarrow>
        handleSetCommand L now server cmd [Str key, Str val, Str opt, Str expiry]
          = (server, ''-ERR Invalid expiry option'' @ CRLF))
   \<and> (ToUpper L opt = ''PX'' \<and> Atoi expiry = Inl e \<longrightarrow>
        handleSetCommand L now server cmd [Str key, Str val, Str opt, Str expiry]
          = (server, ''-ERR Invalid expiry value'' @ CRLF))
   \<and> (ToUpper L opt = ''PX'' \<and> Atoi expiry = Inr n
        \<and> - 9223372036854 \<le> n \<and> n \<le> 9223372036854 \<longrightarrow>
        handleSetCommand L now server cmd [Str key, Str val, Str opt, Str expiry]
          = (server\<lparr>Storage := (Storage server)(key \<mapsto> val),
                    Expirations := (Expirations server)(key \<mapsto> now + n * 1000000)\<rparr>,
             ''+OK'' @ CRLF))
   \<and> (length args \<noteq> 2 \<and> length args \<noteq> 4 \<longrightarrow>
        handleSetCommand L now server cmd args = (server, addReplyErrorArity))"
  by (simp add: handleSetCommand_def wrap64_Millisecond Add_def)

theorem C1_set_witness:
  "handleSetCommand exampleLib 100
       \<lparr>Storage = [''k'' \<mapsto> ''old''], Expirations = [''k'' \<mapsto> 7]\<rparr> ''SET'' [Str ''k'', Str ''v'']
     = (\<lparr>Storage = [''k'' \<mapsto> ''v''], Expirations = Map.empty\<rparr>, ''+OK'' @ CRLF)
   \<and> ToUpper exampleLib ''EX'' \<noteq> ''PX''
   \<and> handleSetCommand exampleLib 100 newServer ''SET''
        [Str ''k'', Str ''v'', Str ''EX'', Str ''10'']
      = (newServer, ''-ERR Invalid expiry option'' @ CRLF)
   \<and> ToUpper exampleLib ''px'' = ''PX''
   \<and> Atoi ''1x'' = Inl NumError
   \<and> handleSetCommand exampleLib 100 newServer ''SET''
        [Str ''k'', Str ''v'', Str ''px'', Str ''1x'']
      = (newServer, ''-ERR Invalid expiry value'' @ CRLF)
   \<and> Atoi ''10'' = Inr 10
   \<and> - 9223372036854 \<le> (10::int) \<and> (10::int) \<le> 9223372036854
   \<and> handleSetCommand exampleLib 100 newServer ''SET''
        [Str ''k'', Str ''v'', Str ''px'', Str ''10'']
      = (\<lparr>Storage = [''k'' \<mapsto> ''v''], Expirations = [''k'' \<mapsto> 10000100]\<rparr>, ''+OK'' @ CRLF)
   \<and> length [Str ''k''] \<noteq> 2 \<and> length [Str ''k''] \<noteq> 4
   \<and> handleSetCommand exampleLib 100 newServer ''SET'' [Str ''k'']
      = (newServer, addReplyErrorArity)"
proof -
  have ex: "ToUpper exampleLib ''EX'' \<noteq> ''PX''" by code_simp
  have px: "ToUpper exampleLib ''px'' = ''PX''" by code_simp
  have bad: "Atoi ''1x'' = Inl NumError"
    by (simp add: Atoi_def isDigit_def byte_def)
  have ten: "Atoi ''10'' = Inr 10"
    by (simp add: Atoi_def isDigit_def byte_def digitsValue_def maxInt_def)
  show ?thesis
    using ex px bad ten
      C1_set [where L = exampleLib and now = 100 and cmd = "''SET''" and key = "''k''"
        and val = "''v''" and opt = "''EX''" and expiry = "''10''" and args = "[Str ''k'']"
        and server = "\<lparr>Storage = [''k'' \<mapsto> ''old''], Expirations = [''k'' \<mapsto> 7]\<rparr>"]
      C1_set [where L = exampleLib and now = 100 and cmd = "''SET''" and key = "''k''"
        and val = "''v''" and opt = "''EX''" and expiry = "''10''" and args = "[Str ''k'']"
        and server = newServer]
      C1_set [where L = exampleLib and now = 100 and cmd = "''SET''" and key = "''k''"
        and val = "''v''" and opt = "''px''" and expiry = "''1x''" and e = NumError
        and args = "[Str ''k'']" and server = newServer]
      C1_set [where L = exampleLib and now = 100 and cmd = "''SET''" and key = "''k''"
        and val = "''v''" and opt = "''px''" and expiry = "''10''" and n = 10
        and args = "[Str ''k'']" and server = newServer]
    by (simp add: newServer_def)
qed

text \<open>
  Claim C1 as stated fails beyond that range: \<open>SET k v PX 9223372036855\<close> is accepted,
  the product with \<open>time.Millisecond\<close> wraps around, and the expiration recorded is
  about 292 years before \<open>now\<close>, not \<open>now + N\<close> milliseconds.
\<close>

theorem C1_counterexample:
  "ToUpper exampleLib ''PX'' = ''PX''
   \<and> Atoi ''9223372036855'' = Inr 9223372036855
   \<and> handleSetCommand exampleLib 0 newServer ''SET''
        [Str ''k'', Str ''v'', Str ''PX'', Str ''9223372036855'']
      = (\<lparr>Storage = [''k'' \<mapsto> ''v''], Expirations = [''k'' \<mapsto> - 9223372036854551616]\<rparr>,
         ''+OK'' @ CRLF)
   \<and> - 9223372036854551616 \<noteq> Add 0 (9223372036855 * Millisecond)"
proof -
  have up: "ToUpper exampleLib ''PX'' = ''PX''" by code_simp
  have at: "Atoi ''9223372036855'' = Inr 9223372036855"
    by (simp add: Atoi_def isDigit_def byte_def digitsValue_def maxInt_def)
  show ?thesis
    using up at
    by (simp add: handleSetCommand_def newServer_def wrap64_def Millisecond_def Add_def)
qed

section \<open>GET\<close>

lemma addReplyBulk_single: "addReplyBulk [Str v] = spec_bulkString v"
  by (simp add: spec_bulkString_def)

text \<open>
  Claim C2, as amended. For every GET invocation with one string argument: if the key
  has a recorded expiration strictly before the current time, GET removes the key from
  both maps and replies with the null bulk value; otherwise (no expiration, or one at or
  after the current time) it replies with the stored value as a bulk string, or with the
  null bulk value when the key has no value, and leaves the store as it was. Any other
  number of arguments gives the arity-error reply.
\<close>

theorem C2_get:
  "(Expirations server key = Some expiration \<and> expiration < now \<longrightarrow>
      handleGetCommand now server cmd [Str key]
        = (server\<lparr>Storage := (Storage server)(key := None),
                  Expirations := (Expirations server)(key := None)\<rparr>, ''$-1'' @ CRLF))
   \<and> ((\<forall>e. Expirations server key = Some e \<longrightarrow> now \<le> e) \<and> Storage server key = Some val \<longrightarrow>
      handleGetCommand now server cmd [Str key] = (server, spec_bulkString val))
   \<and> ((\<forall>e. Expirations server key = Some e \<longrightarrow> now \<le> e) \<and> Storage server key = None \<longrightarrow>
      handleGetCommand now server cmd [Str key] = (server, ''$-1'' @ CRLF))
   \<and> (length args \<noteq> 1 \<longrightarrow>
      handleGetCommand now server cmd args = (server, addReplyErrorArity))"
  by (auto simp: handleGetCommand_def expired_def After_def addReplyBulk_single
      simp del: addReplyBulk.simps split: option.splits)

theorem C2_get_witness:
  "Expirations \<lparr>Storage = [''k'' \<mapsto> ''v''], Expirations = [''k'' \<mapsto> 10]\<rparr> ''k'' = Some 10
   \<and> (10::int) < 11
   \<and> handleGetCommand 11 \<lparr>Storage = [''k'' \<mapsto> ''v''], Expirations = [''k'' \<mapsto> 10]\<rparr> ''GET''
        [Str ''k'']
      = (newServer, ''$-1'' @ CRLF)
   \<and> Expirations \<lparr>Storage = [''k'' \<mapsto> ''v''], Expirations = Map.empty\<rparr> ''k'' = None
   \<and> Storage \<lparr>Storage = [''k'' \<mapsto> ''v''], Expirations = Map.empty\<rparr> ''k'' = Some ''v''
   \<and> handleGetCommand 11 \<lparr>Storage = [''k'' \<mapsto> ''v''], Expirations = Map.empty\<rparr> ''GET''
        [Str ''k'']
      = (\<lparr>Storage = [''k'' \<mapsto> ''v''], Expirations = Map.empty\<rparr>, spec_bulkString ''v'')
   \<and> Expirations newServer ''k'' = None \<and> Storage newServer ''k'' = None
   \<and> handleGetCommand 11 newServer ''GET'' [Str ''k''] = (newServer, ''$-1'' @ CRLF)
   \<and> length ([] :: resp list) \<noteq> 1
   \<and> handleGetCommand 11 newServer ''GET'' [] = (newServer, addReplyErrorArity)"
  using
    C2_get [where server = "\<lparr>Storage = [''k'' \<mapsto> ''v''], Expirations = [''k'' \<mapsto> 10]\<rparr>"
      and key = "''k''" and expiration = 10 and now = 11 and cmd = "''GET''" and args = "[]"]
    C2_get [where server = "\<lparr>Storage = [''k'' \<mapsto> ''v''], Expirations = Map.empty\<rparr>"
      and key = "''k''" and val = "''v''" and now = 11 and cmd = "''GET''" and args = "[]"]
    C2_get [where server = newServer and key = "''k''" and now = 11 and cmd = "''GET''"
      and args = "[]"]
  by (simp add: newServer_def)

text \<open>
  Claim C2 as stated fails at the boundary: the test is \<open>time.Now().After(expiration)\<close>,
  so a key whose expiration is the current instant is still served.
\<close>

theorem C2_counterexample:
  "Expirations \<lparr>Storage = [''k'' \<mapsto> ''v''], Expirations = [''k'' \<mapsto> 10]\<rparr> ''k'' = Some 10
   \<and> (10::int) \<le> 10
   \<and> handleGetCommand 10 \<lparr>Storage = [''k'' \<mapsto> ''v''], Expirations = [''k'' \<mapsto> 10]\<rparr> ''GET''
        [Str ''k'']
      = (\<lparr>Storage = [''k'' \<mapsto> ''v''], Expirations = [''k'' \<mapsto> 10]\<rparr>,
         ''$1'' @ CRLF @ ''v'' @ CRLF)
   \<and> ''$1'' @ CRLF @ ''v'' @ CRLF \<noteq> ''$-1'' @ CRLF"
proof -
  have "Itoa 1 = ''1''" by code_simp
  then show ?thesis
    by (simp add: handleGetCommand_def expired_def After_def CRLF_def)
qed

section \<open>Errors leave the store unchanged\<close>

lemma addReplyBulk_Str_not_error: "\<not> spec_isErrorReply (addReplyBulk [Str v])"
  by (simp add: spec_isErrorReply_def)

text \<open>
  Claim C10. Whenever SET or GET returns an error reply (a reply that starts with
  \<open>-\<close>: arity, key or value type, expiry option, expiry type, expiry value), the
  server it returns is the server it was given: both maps are unchanged.
\<close>

theorem C10_errors_leave_store:
  "(spec_isErrorReply (snd (handleSetCommand L now server cmd args)) \<longrightarrow>
      fst (handleSetCommand L now server cmd args) = server)
   \<and> (spec_isErrorReply (snd (handleGetCommand now server cmd args)) \<longrightarrow>
      fst (handleGetCommand now server cmd args) = server)"
proof
  show "spec_isErrorReply (snd (handleSetCommand L now server cmd args)) \<longrightarrow>
      fst (handleSetCommand L now server cmd args) = server"
    by (simp add: handleSetCommand_def spec_isErrorReply_def split: resp.split sum.split)
next
  show "spec_isErrorReply (snd (handleGetCommand now server cmd args)) \<longrightarrow>
      fst (handleGetCommand now server cmd args) = server"
    using addReplyBulk_Str_not_error
    by (simp add: handleGetCommand_def spec_isErrorReply_def del: addReplyBulk.simps
        split: resp.split option.split)
qed

theorem C10_errors_leave_store_witness:
  "spec_isErrorReply (snd (handleSetCommand exampleLib 5 newServer ''SET'' [Str ''k'']))
   \<and> fst (handleSetCommand exampleLib 5 newServer ''SET'' [Str ''k'']) = newServer
   \<and> spec_isErrorReply (snd (handleGetCommand 5 newServer ''GET'' [Nil]))
   \<and> fst (handleGetCommand 5 newServer ''GET'' [Nil]) = newServer"
proof -
  have s: "spec_isErrorReply (snd (handleSetCommand exampleLib 5 newServer ''SET'' [Str ''k'']))"
    by (simp add: handleSetCommand_def spec_isErrorReply_def addReplyErrorArity_def)
  have g: "spec_isErrorReply (snd (handleGetCommand 5 newServer ''GET'' [Nil]))"
    by (simp add: handleGetCommand_def spec_isErrorReply_def)
  show ?thesis
    using s g
      C10_errors_leave_store [of exampleLib 5 newServer "''SET''" "[Str ''k'']"]
      C10_errors_leave_store [of exampleLib 5 newServer "''GET''" "[Nil]"]
    by simp
qed

section \<open>The consistency of the store\<close>






text \<open>
  Run alone, the steps of a call change the store as the handler does.
\<close>

lemma setSteps_alone:
  "schedule server [setSteps L now args] [0, 0] = fst (handleSetCommand L now server cmd args)"
  by (simp add: setSteps_def handleSetCommand_def split: resp.split sum.split)

lemma getSteps_alone:
  "schedule server [getSteps now args] [0, 0, 0] = fst (handleGetCommand now server cmd args)"
  by (simp add: getSteps_def handleGetCommand_def del: addReplyBulk.simps
      split: resp.split option.split)




section \<open>The bulk reply encoder\<close>

lemma addReplyBulk_loop_strings:
  "addReplyBulk_loop (map Str ss @ rest) reply
     = addReplyBulk_loop rest (reply @ concat (map spec_bulkString ss))"
  by (induction ss arbitrary: reply) (simp_all add: spec_bulkString_def del: addReplyBulk.simps)

lemma addReplyBulk_strings:
  "ss \<noteq> [] \<Longrightarrow> addReplyBulk (map Str ss) = concat (map spec_bulkString ss)"
  using addReplyBulk_loop_strings [of ss "[]" "[]"] by simp

lemma addReplyBulk_nil:
  "addReplyBulk (map Str ss @ Nil # rest) = ''-ERR Unknown argument type <nil>'' @ CRLF"
  using addReplyBulk_loop_strings [of ss "Nil # rest" "[]"] by simp

lemma addReplyBulk_nested:
  "addReplyBulk (map Str ss @ Array vs # rest) = addReplyBulk vs"
  using addReplyBulk_loop_strings [of ss "Array vs # rest" "[]"] by simp

text \<open>
  Claim C8, as amended. The bulk reply encoder returns \<open>+\r\n\<close> for the empty list;
  for a non-empty list of strings it returns the concatenation, in order, of the bulk
  encodings \<open>$<len>\r\n<bytes>\r\n\<close> of the strings; and when the first element that
  is not a string is a null value, it returns the unsupported-type error reply alone.
\<close>

theorem C8_bulk:
  "addReplyBulk [] = ''+'' @ CRLF
   \<and> (ss \<noteq> [] \<longrightarrow> addReplyBulk (map Str ss) = concat (map spec_bulkString ss))
   \<and> addReplyBulk (map Str ss @ Nil # rest) = ''-ERR Unknown argument type <nil>'' @ CRLF"
  using addReplyBulk_strings [of ss] addReplyBulk_nil [of ss rest] by simp

theorem C8_bulk_witness:
  "[''a'', ''bcd''] \<noteq> []
   \<and> addReplyBulk [Str ''a'', Str ''bcd''] = ''$1'' @ CRLF @ ''a'' @ CRLF @ ''$3'' @ CRLF @ ''bcd'' @ CRLF
   \<and> addReplyBulk [Str ''a'', Nil, Str ''b''] = ''-ERR Unknown argument type <nil>'' @ CRLF"
proof -
  have i: "Itoa 1 = ''1''" "Itoa 3 = ''3''" by code_simp+
  show ?thesis
    using C8_bulk [of "[''a'', ''bcd'']" "[]"] C8_bulk [of "[''a'']" "[Str ''b'']"] i
    by (simp add: spec_bulkString_def)
qed

text \<open>
  Claim C8 as stated fails on the empty list, whose reply is \<open>+\r\n\<close> and not the
  empty concatenation, and on a list with a null value, whose reply is the error alone.
\<close>

theorem C8_counterexample:
  "addReplyBulk [] = ''+'' @ CRLF
   \<and> addReplyBulk [] \<noteq> concat (map spec_bulk [])
   \<and> addReplyBulk [Str ''a'', Nil] = ''-ERR Unknown argument type <nil>'' @ CRLF
   \<and> addReplyBulk [Str ''a'', Nil] \<noteq> concat (map spec_bulk [Str ''a'', Nil])"
  by (simp add: spec_bulkString_def CRLF_def)

text \<open>
  A nested list ends the loop: \<open>return addReplyBulk(value)\<close> replies with the encoding
  of the nested list alone, without the elements before and after it.
\<close>

lemma addReplyBulk_nested_example:
  "addReplyBulk [Str ''a'', Array [Str ''b''], Str ''c''] = spec_bulkString ''b''"
  by (simp add: spec_bulkString_def)

section \<open>The command table of the loader\<close>

lemma named_update: "named T \<Longrightarrow> named (T(cmdName \<mapsto> makeCommand cmdName info))"
  unfolding named_def by (simp add: makeCommand_def)

lemma addCommands_named: "named T \<Longrightarrow> named (addCommands T commands)"
proof (induction commands arbitrary: T)
  case Nil
  then show ?case by simp
next
  case (Cons entry commands)
  obtain cmdName info where entry: "entry = (cmdName, info)" by (cases entry)
  show ?case
    unfolding entry addCommands.simps
    by (rule Cons.IH) (rule named_update [OF Cons.prems])
qed

lemma loadFiles_named: "named T \<Longrightarrow> named (loadFiles T files)"
proof (induction files arbitrary: T)
  case Nil
  then show ?case by simp
next
  case (Cons f files)
  obtain fileName content where f: "f = (fileName, content)" by (cases f)
  show ?case
  proof (cases content)
    case ReadFileError
    then show ?thesis using Cons f by simp
  next
    case UnmarshalError
    then show ?thesis using Cons f by simp
  next
    case (Commands commands)
    then show ?thesis
      using Cons.IH [OF Cons.prems] Cons.IH [OF addCommands_named [OF Cons.prems, of commands]] f
      by simp
  qed
qed

lemma addCommands_dom_iff:
  "(addCommands T commands k \<noteq> None) = (T k \<noteq> None \<or> (\<exists>info. (k, info) \<in> set commands))"
proof (induction commands arbitrary: T)
  case Nil
  then show ?case by simp
next
  case (Cons entry commands)
  obtain cmdName info where entry: "entry = (cmdName, info)" by (cases entry)
  show ?case
    unfolding entry addCommands.simps Cons.IH by auto
qed

lemma loadFiles_dom_iff:
  "(loadFiles T files k \<noteq> None)
     = (T k \<noteq> None \<or> (\<exists>fileName commands info.
          (fileName, Commands commands) \<in> set files \<and> Ext fileName = ''.json''
          \<and> (k, info) \<in> set commands))"
proof -
  define json where "json fileName = (Ext fileName = ''.json'')" for fileName
  have skip: "loadFiles T ((fileName, content) # files) = loadFiles T files"
    if "\<not> json fileName \<or> content = ReadFileError \<or> content = UnmarshalError"
    for T fileName content files
    using that by (auto simp: json_def)
  have load: "loadFiles T ((fileName, Commands commands) # files)
      = loadFiles (addCommands T commands) files"
    if "json fileName" for T fileName commands files
    using that by (simp add: json_def)
  have "(loadFiles T files k \<noteq> None)
     = (T k \<noteq> None \<or> (\<exists>fileName commands info.
          (fileName, Commands commands) \<in> set files \<and> json fileName
          \<and> (k, info) \<in> set commands))"
  proof (induction files arbitrary: T)
    case Nil
    then show ?case by simp
  next
    case (Cons f files)
    obtain fileName content where f: "f = (fileName, content)" by (cases f)
    show ?case
    proof (cases "json fileName \<and> (\<exists>commands. content = Commands commands)")
      case True
      then obtain commands where c: "content = Commands commands" and j: "json fileName"
        by blast
      show ?thesis
        unfolding f c load [OF j] Cons.IH addCommands_dom_iff using j by auto
    next
      case False
      then have "\<not> json fileName \<or> content = ReadFileError \<or> content = UnmarshalError"
        by (cases content) auto
      then show ?thesis
        unfolding f skip [OF \<open>\<not> json fileName \<or> content = ReadFileError \<or> content = UnmarshalError\<close>]
          Cons.IH
        by auto
    qed
  qed
  then show ?thesis by (simp only: json_def)
qed

text \<open>
  Claim C7, as amended. The table that the loader returns is indexed by the name tokens
  of the descriptors exactly as the files write them, with no change of case: its keys
  are the names of the entries of the files with extension \<open>.json\<close> that were read and
  decoded, and every record is filed under its own \<open>Name\<close>. A lookup with the
  upper-case command name succeeds exactly when a descriptor is written with that name.
\<close>

theorem C7_registry_keys:
  assumes "loadCommandsFromJSON (Files files) = Inr T"
  shows "dom T = {cmdName. \<exists>fileName commands info.
            (fileName, Commands commands) \<in> set files \<and> Ext fileName = ''.json''
            \<and> (cmdName, info) \<in> set commands}
         \<and> (\<forall>cmdName command. T cmdName = Some command \<longrightarrow> Name command = cmdName)"
proof
  have T: "T = loadFiles Map.empty files"
    using assms by (simp add: loadCommandsFromJSON_def)
  show "dom T = {cmdName. \<exists>fileName commands info.
            (fileName, Commands commands) \<in> set files \<and> Ext fileName = ''.json''
            \<and> (cmdName, info) \<in> set commands}"
  proof (rule set_eqI)
    fix k
    have "(k \<in> dom T) = (loadFiles Map.empty files k \<noteq> None)"
      unfolding T by (simp add: dom_def)
    then show "(k \<in> dom T) = (k \<in> {cmdName. \<exists>fileName commands info.
            (fileName, Commands commands) \<in> set files \<and> Ext fileName = ''.json''
            \<and> (cmdName, info) \<in> set commands})"
      using loadFiles_dom_iff [of Map.empty files k] by simp
  qed
  show "\<forall>cmdName command. T cmdName = Some command \<longrightarrow> Name command = cmdName"
    using loadFiles_named [of Map.empty files] unfolding T named_def by simp
qed

theorem C7_registry_keys_witness:
  "loadCommandsFromJSON (Files
       [(''ping.json'', Commands [(''PING'', exampleInfo ''pingCommand'')]),
        (''README.md'', Commands [(''ECHO'', exampleInfo ''echoCommand'')]),
        (''broken.json'', UnmarshalError)])
     = Inr [''PING'' \<mapsto> makeCommand ''PING'' (exampleInfo ''pingCommand'')]
   \<and> dom [''PING'' \<mapsto> makeCommand ''PING'' (exampleInfo ''pingCommand'')]
     = {cmdName. \<exists>fileName commands info.
          (fileName, Commands commands) \<in> set
            [(''ping.json'', Commands [(''PING'', exampleInfo ''pingCommand'')]),
             (''README.md'', Commands [(''ECHO'', exampleInfo ''echoCommand'')]),
             (''broken.json'', UnmarshalError)]
          \<and> Ext fileName = ''.json'' \<and> (cmdName, info) \<in> set commands}
   \<and> Name (makeCommand ''PING'' (exampleInfo ''pingCommand'')) = ''PING''"
proof -
  have h: "loadCommandsFromJSON (Files
       [(''ping.json'', Commands [(''PING'', exampleInfo ''pingCommand'')]),
        (''README.md'', Commands [(''ECHO'', exampleInfo ''echoCommand'')]),
        (''broken.json'', UnmarshalError)])
     = Inr [''PING'' \<mapsto> makeCommand ''PING'' (exampleInfo ''pingCommand'')]"
    by (simp add: loadCommandsFromJSON_def Ext_def)
  show ?thesis
    using h C7_registry_keys [OF h] by simp
qed

text \<open>
  Claim C7 as stated fails for a descriptor written in lower case: the table holds it
  under \<open>ping\<close>, and the lookup of \<open>PING\<close>, the name that \<open>readCommand\<close>
  produces, finds nothing.
\<close>

theorem C7_counterexample:
  "ToUpper exampleLib ''ping'' = ''PING''
   \<and> loadCommandsFromJSON (Files
         [(''ping.json'', Commands [(''ping'', exampleInfo ''pingCommand'')])])
       = Inr [''ping'' \<mapsto> makeCommand ''ping'' (exampleInfo ''pingCommand'')]
   \<and> [''ping'' \<mapsto> makeCommand ''ping'' (exampleInfo ''pingCommand'')] ''PING'' = None"
proof -
  have "ToUpper exampleLib ''ping'' = ''PING''" by code_simp
  then show ?thesis
    by (simp add: loadCommandsFromJSON_def Ext_def)
qed

section \<open>PING\<close>

lemma spec_bulk_strings: "spec_bulk (Array (map Str ss)) = concat (map spec_bulkString ss)"
  by (simp add: comp_def)

lemma handlePingCommand_list: "handlePingCommand T cmd [Array vs] = addReplyBulk vs"
  by (simp add: handlePingCommand_def)

text \<open>
  Claim C9, as amended. For every PING invocation, with a table that the loader built
  and that holds \<open>PING\<close>: with no argument the reply is \<open>+PONG\r\n\<close>; with one
  argument that is a string, or a non-empty list of strings, the reply is that argument
  echoed back as a bulk value; with one argument that is a null value, or a list whose
  first element that is not a string is a null value, the reply is the unsupported-type
  error, and with one empty list it is \<open>+\r\n\<close>; with more than one argument the
  reply is the arity error.
\<close>

theorem C9_ping:
  assumes "loadCommandsFromJSON dir = Inr T" and "T ''PING'' = Some command"
  shows "handlePingCommand T ''PING'' [] = ''+PONG'' @ CRLF
    \<and> handlePingCommand T ''PING'' [Str s] = spec_bulk (Str s)
    \<and> (ss \<noteq> [] \<longrightarrow>
         handlePingCommand T ''PING'' [Array (map Str ss)] = spec_bulk (Array (map Str ss)))
    \<and> handlePingCommand T ''PING'' [Nil] = ''-ERR Unknown argument type <nil>'' @ CRLF
    \<and> handlePingCommand T ''PING'' [Array (map Str ss @ Nil # rest)]
         = ''-ERR Unknown argument type <nil>'' @ CRLF
    \<and> handlePingCommand T ''PING'' [Array []] = ''+'' @ CRLF
    \<and> (length args > 1 \<longrightarrow> handlePingCommand T ''PING'' args = addReplyErrorArity)"
proof -
  obtain files where dir: "dir = Files files" and T: "T = loadFiles Map.empty files"
    using assms(1) by (cases dir) (auto simp: loadCommandsFromJSON_def)
  have "named T"
    unfolding T by (rule loadFiles_named) (simp add: named_def)
  then have "Name command = ''PING''"
    using assms(2) by (simp add: named_def)
  then have pong: "addReply (index T ''PING'') = ''+PONG'' @ CRLF"
    using assms(2) by (simp add: addReply_def index_def)
  have p0: "handlePingCommand T ''PING'' [] = ''+PONG'' @ CRLF"
    using pong by (simp add: handlePingCommand_def)
  have p1: "handlePingCommand T ''PING'' [Str s] = spec_bulk (Str s)"
    by (simp add: handlePingCommand_def spec_bulkString_def)
  have p2: "ss \<noteq> [] \<longrightarrow>
      handlePingCommand T ''PING'' [Array (map Str ss)] = spec_bulk (Array (map Str ss))"
    unfolding handlePingCommand_list spec_bulk_strings
    using addReplyBulk_strings [of ss] by blast
  have p3: "handlePingCommand T ''PING'' [Nil] = ''-ERR Unknown argument type <nil>'' @ CRLF"
    by (simp add: handlePingCommand_def)
  have p4: "handlePingCommand T ''PING'' [Array (map Str ss @ Nil # rest)]
      = ''-ERR Unknown argument type <nil>'' @ CRLF"
    unfolding handlePingCommand_list by (rule addReplyBulk_nil)
  have p5: "handlePingCommand T ''PING'' [Array []] = ''+'' @ CRLF"
    unfolding handlePingCommand_list by simp
  have p6: "length args > 1 \<longrightarrow> handlePingCommand T ''PING'' args = addReplyErrorArity"
    by (simp add: handlePingCommand_def)
  show ?thesis
    by (intro conjI) (fact p0 p1 p2 p3 p4 p5 p6)+
qed

theorem C9_ping_witness:
  "loadCommandsFromJSON (Files
       [(''ping.json'', Commands [(''PING'', exampleInfo ''pingCommand'')])])
     = Inr [''PING'' \<mapsto> makeCommand ''PING'' (exampleInfo ''pingCommand'')]
   \<and> [''PING'' \<mapsto> makeCommand ''PING'' (exampleInfo ''pingCommand'')] ''PING''
     = Some (makeCommand ''PING'' (exampleInfo ''pingCommand''))
   \<and> handlePingCommand [''PING'' \<mapsto> makeCommand ''PING'' (exampleInfo ''pingCommand'')]
        ''PING'' [] = ''+PONG'' @ CRLF
   \<and> handlePingCommand [''PING'' \<mapsto> makeCommand ''PING'' (exampleInfo ''pingCommand'')]
        ''PING'' [Str ''hi''] = ''$2'' @ CRLF @ ''hi'' @ CRLF
   \<and> [''a'', ''bc''] \<noteq> []
   \<and> handlePingCommand [''PING'' \<mapsto> makeCommand ''PING'' (exampleInfo ''pingCommand'')]
        ''PING'' [Array [Str ''a'', Str ''bc'']]
     = ''$1'' @ CRLF @ ''a'' @ CRLF @ ''$2'' @ CRLF @ ''bc'' @ CRLF
   \<and> length [Str ''a'', Str ''b''] > 1
   \<and> handlePingCommand [''PING'' \<mapsto> makeCommand ''PING'' (exampleInfo ''pingCommand'')]
        ''PING'' [Str ''a'', Str ''b''] = addReplyErrorArity"
proof -
  have h: "loadCommandsFromJSON (Files
       [(''ping.json'', Commands [(''PING'', exampleInfo ''pingCommand'')])])
     = Inr [''PING'' \<mapsto> makeCommand ''PING'' (exampleInfo ''pingCommand'')]"
    by (simp add: loadCommandsFromJSON_def Ext_def)
  have g: "[''PING'' \<mapsto> makeCommand ''PING'' (exampleInfo ''pingCommand'')] ''PING''
     = Some (makeCommand ''PING'' (exampleInfo ''pingCommand''))"
    by simp
  have i: "Itoa 1 = ''1''" "Itoa 2 = ''2''" by code_simp+
  have hi: "spec_bulk (Str ''hi'') = ''$2'' @ CRLF @ ''hi'' @ CRLF"
    by (simp add: spec_bulkString_def i)
  have ab: "spec_bulk (Array (map Str [''a'', ''bc'']))
      = ''$1'' @ CRLF @ ''a'' @ CRLF @ ''$2'' @ CRLF @ ''bc'' @ CRLF"
    by (simp add: spec_bulkString_def i)
  note t = C9_ping [OF h g, of "''hi''" "[''a'', ''bc'']" "[]" "[Str ''a'', Str ''b'']"]
  have p1: "handlePingCommand [''PING'' \<mapsto> makeCommand ''PING'' (exampleInfo ''pingCommand'')]
        ''PING'' [] = ''+PONG'' @ CRLF"
    using t by (elim conjE)
  have "handlePingCommand [''PING'' \<mapsto> makeCommand ''PING'' (exampleInfo ''pingCommand'')]
        ''PING'' [Str ''hi''] = spec_bulk (Str ''hi'')"
    using t by (elim conjE)
  then have p2: "handlePingCommand
        [''PING'' \<mapsto> makeCommand ''PING'' (exampleInfo ''pingCommand'')]
        ''PING'' [Str ''hi''] = ''$2'' @ CRLF @ ''hi'' @ CRLF"
    by (simp only: hi)
  have p3: "[''a'', ''bc''] \<noteq> []" by simp
  have "[''a'', ''bc''] \<noteq> [] \<longrightarrow> handlePingCommand
        [''PING'' \<mapsto> makeCommand ''PING'' (exampleInfo ''pingCommand'')]
        ''PING'' [Array (map Str [''a'', ''bc''])] = spec_bulk (Array (map Str [''a'', ''bc'']))"
    using t by (elim conjE)
  then have "handlePingCommand
        [''PING'' \<mapsto> makeCommand ''PING'' (exampleInfo ''pingCommand'')]
        ''PING'' [Array (map Str [''a'', ''bc''])] = spec_bulk (Array (map Str [''a'', ''bc'']))"
    using p3 by (rule mp)
  then have p4: "handlePingCommand
        [''PING'' \<mapsto> makeCommand ''PING'' (exampleInfo ''pingCommand'')]
        ''PING'' [Array [Str ''a'', Str ''bc'']]
     = ''$1'' @ CRLF @ ''a'' @ CRLF @ ''$2'' @ CRLF @ ''bc'' @ CRLF"
    unfolding ab by simp
  have p5: "length [Str ''a'', Str ''b''] > 1" by simp
  have "length [Str ''a'', Str ''b''] > 1 \<longrightarrow> handlePingCommand
        [''PING'' \<mapsto> makeCommand ''PING'' (exampleInfo ''pingCommand'')]
        ''PING'' [Str ''a'', Str ''b''] = addReplyErrorArity"
    using t by (elim conjE)
  then have p6: "handlePingCommand
        [''PING'' \<mapsto> makeCommand ''PING'' (exampleInfo ''pingCommand'')]
        ''PING'' [Str ''a'', Str ''b''] = addReplyErrorArity"
    using p5 by (rule mp)
  show ?thesis
    by (intro conjI) (fact h g p1 p2 p3 p4 p5 p6)+
qed

text \<open>
  Claim C9 as stated fails for \<open>PING\<close> with one null argument, which the decoder
  produces from \<open>$-1\r\n\<close>, for one empty list, and for a list with a null value:
  the reply is the error or \<open>+\r\n\<close>, not the argument as a bulk value.
\<close>

theorem C9_counterexample:
  "readCommand exampleLib
      (''*2'' @ CRLF @ ''$4'' @ CRLF @ ''PING'' @ CRLF @ ''$-1'' @ CRLF)
     = Inr ((''PING'', [Nil]), [])
   \<and> handlePingCommand [''PING'' \<mapsto> makeCommand ''PING'' (exampleInfo ''pingCommand'')]
      ''PING'' [Nil] = ''-ERR Unknown argument type <nil>'' @ CRLF
   \<and> handlePingCommand [''PING'' \<mapsto> makeCommand ''PING'' (exampleInfo ''pingCommand'')]
      ''PING'' [Nil] \<noteq> spec_bulk Nil
   \<and> readCommand exampleLib
      (''*2'' @ CRLF @ ''$4'' @ CRLF @ ''PING'' @ CRLF @ ''*0'' @ CRLF)
     = Inr ((''PING'', [Array []]), [])
   \<and> handlePingCommand [''PING'' \<mapsto> makeCommand ''PING'' (exampleInfo ''pingCommand'')]
      ''PING'' [Array []] = ''+'' @ CRLF
   \<and> handlePingCommand [''PING'' \<mapsto> makeCommand ''PING'' (exampleInfo ''pingCommand'')]
      ''PING'' [Array []] \<noteq> spec_bulk (Array [])
   \<and> handlePingCommand [''PING'' \<mapsto> makeCommand ''PING'' (exampleInfo ''pingCommand'')]
      ''PING'' [Array [Str ''a'', Nil]] = ''-ERR Unknown argument type <nil>'' @ CRLF
   \<and> handlePingCommand [''PING'' \<mapsto> makeCommand ''PING'' (exampleInfo ''pingCommand'')]
      ''PING'' [Array [Str ''a'', Nil]] \<noteq> spec_bulk (Array [Str ''a'', Nil])"
proof (intro conjI)
  show "readCommand exampleLib
      (''*2'' @ CRLF @ ''$4'' @ CRLF @ ''PING'' @ CRLF @ ''$-1'' @ CRLF)
     = Inr ((''PING'', [Nil]), [])"
    by code_simp
  show "readCommand exampleLib
      (''*2'' @ CRLF @ ''$4'' @ CRLF @ ''PING'' @ CRLF @ ''*0'' @ CRLF)
     = Inr ((''PING'', [Array []]), [])"
    by code_simp
qed (simp_all add: handlePingCommand_def spec_bulkString_def CRLF_def)

section \<open>Dispatch of a command without a handler\<close>

lemma handleCommands_nil:
  "T cmd = Some command \<Longrightarrow> Function command = None \<Longrightarrow>
   handleCommands T L now server cmd args = Inl (Panic NilFunctionCall)"
  by (simp add: handleCommands_def)

text \<open>
  Claim C5 asks for an error reply when the function token of a registered command was
  not recognised. The code does not do that: \<open>getFunctionByName\<close> returns \<open>nil\<close>,
  \<open>handleCommands\<close> calls it, and the call panics. Here for the descriptor
  \<open>FOO\<close> with the function token \<open>fooCommand\<close>.
\<close>

theorem C5_unresolved_handler_panics:
  "loadCommandsFromJSON (Files
       [(''foo.json'', Commands [(''FOO'', exampleInfo ''fooCommand'')])])
     = Inr [''FOO'' \<mapsto> makeCommand ''FOO'' (exampleInfo ''fooCommand'')]
   \<and> Function (makeCommand ''FOO'' (exampleInfo ''fooCommand'')) = None
   \<and> handleCommands [''FOO'' \<mapsto> makeCommand ''FOO'' (exampleInfo ''fooCommand'')]
        exampleLib 0 newServer ''FOO'' []
     = Inl (Panic NilFunctionCall)"
  by (simp add: loadCommandsFromJSON_def Ext_def handleCommands_def makeCommand_def
      exampleInfo_def getFunctionByName_def)

section \<open>The decoder: termination and faults\<close>

lemma ReadByte_shorter: "ReadByte inp = Inr (c, r) \<Longrightarrow> length r < length inp"
  by (cases inp) (simp_all add: ReadByte_def)

lemma ReadString_shorter: "ReadString d inp = Inr (line, r) \<Longrightarrow> length r < length inp"
  by (induction inp arbitrary: line) (auto split: if_splits sum.splits)

lemma ReadString_fault: "ReadString d inp = Inl e \<Longrightarrow> e = Err EOF"
  by (induction inp) (auto split: if_splits sum.splits)

lemma ReadFull_shorter: "ReadFull n inp = Inr (b, r) \<Longrightarrow> length r \<le> length inp"
  by (auto simp: ReadFull_def split: if_splits)

lemma ReadFull_fault: "ReadFull n inp = Inl e \<Longrightarrow> e \<noteq> OutOfFuel"
  by (auto simp: ReadFull_def split: if_splits)

lemma readArray_enough:
  assumes step: "\<And>inp. length inp < f \<Longrightarrow>
      readRESP_fuel f L inp \<noteq> Inl OutOfFuel
      \<and> (\<forall>v r. readRESP_fuel f L inp = Inr (v, r) \<longrightarrow> length r < length inp)"
  shows "length inp < f \<Longrightarrow>
      readArray f L n inp \<noteq> Inl OutOfFuel
      \<and> (\<forall>vs r. readArray f L n inp = Inr (vs, r) \<longrightarrow> length r \<le> length inp)"
proof (induction n arbitrary: inp)
  case 0
  then show ?case by simp
next
  case (Suc n)
  show ?case
  proof (cases "readRESP_fuel f L inp")
    case (Inl e)
    then show ?thesis using step [OF Suc.prems] by simp
  next
    case (Inr p)
    obtain v r where p: "p = (v, r)" by (cases p)
    have r: "length r < length inp" using step [OF Suc.prems] Inr p by simp
    then have "length r < f" using Suc.prems by simp
    from Suc.IH [OF this] show ?thesis
      using Inr p r by (auto split: sum.splits)
  qed
qed

lemma readRESP_fuel_enough:
  "length inp < f \<Longrightarrow>
     readRESP_fuel f L inp \<noteq> Inl OutOfFuel
     \<and> (\<forall>v r. readRESP_fuel f L inp = Inr (v, r) \<longrightarrow> length r < length inp)"
proof (induction f arbitrary: inp)
  case 0
  then show ?case by simp
next
  case (Suc f)
  show ?case
  proof (cases inp)
    case Nil
    then show ?thesis by (simp add: ReadByte_def)
  next
    case (Cons prefix r1)
    show ?thesis
    proof (cases "ReadString (CHR 0x0A) r1")
      case (Inl e)
      then have "e = Err EOF" by (rule ReadString_fault)
      then show ?thesis using Inl Cons by (simp add: ReadByte_def)
    next
      case (Inr p)
      obtain line r2 where p: "p = (line, r2)" by (cases p)
      have r2: "length r2 < length r1" using Inr p ReadString_shorter by simp
      have fuel: "length r2 < f" using r2 Suc.prems Cons by simp
      have arr: "readArray f L n r2 \<noteq> Inl OutOfFuel
          \<and> (\<forall>vs r. readArray f L n r2 = Inr (vs, r) \<longrightarrow> length r \<le> length r2)" for n
        by (rule readArray_enough [OF Suc.IH fuel])
      have full: "ReadFull n r2 \<noteq> Inl OutOfFuel
          \<and> (\<forall>b r. ReadFull n r2 = Inr (b, r) \<longrightarrow> length r \<le> length r2)" for n
        using ReadFull_shorter ReadFull_fault by blast
      show ?thesis
        using Inr p Cons r2 arr full
        by (simp add: ReadByte_def split: sum.split prod.split) fastforce
    qed
  qed
qed

lemma readRESP_returns: "readRESP L inp \<noteq> Inl OutOfFuel"
  using readRESP_fuel_enough [of inp "Suc (length inp)" L] by (simp add: readRESP_def)

text \<open>
  Claim C6 asks that the decoder returns an error on every malformed or out-of-range
  length. The code does not do that: a bulk length below \<open>-1\<close> and a negative array
  count are accepted by \<open>Atoi\<close> and reach \<open>make\<close> or the slice expression, which
  panic.
\<close>

theorem C6_decoder_panics:
  "readRESP exampleLib (''$-5'' @ CRLF) = Inl (Panic MakeSliceLenOutOfRange)
   \<and> readRESP exampleLib (''$-2'' @ CRLF) = Inl (Panic SliceBoundsOutOfRange)
   \<and> readRESP exampleLib (''*-1'' @ CRLF) = Inl (Panic MakeSliceLenOutOfRange)
   \<and> readCommand exampleLib (''*-1'' @ CRLF) = Inl (Panic MakeSliceLenOutOfRange)"
  by (simp add: readRESP_def readCommand_def Peek1_def CRLF_def ReadByte_def ReadFull_def
      Atoi_def byte_def asciiSpace_def isDigit_def digitsValue_def wrap64_def)

end
